theory Spec2Isabelle
  imports Main
begin

section \<open>The voice service of \<^verbatim>\<open>src/js/voice.js\<close>\<close>

text \<open>
  The class \<^verbatim>\<open>VoiceService\<close> is embedded with explicit state passing: every
  method and every event hook takes the object's fields as a record and returns the
  updated record together with the list of calls it made to the outside world (engine
  operations, caller callbacks, timers, console output), in program order.

  What the platform decides (whether a recognition engine can be constructed, whether
  \<^verbatim>\<open>start()\<close> or \<^verbatim>\<open>stop()\<close> throws) is an input of each call, the record \<open>env\<close>.
  \<^verbatim>\<open>abort()\<close> is only ever called inside a \<^verbatim>\<open>try\<close> with an empty \<^verbatim>\<open>catch\<close>,
  so its outcome changes nothing and is not an input. \<^verbatim>\<open>log()\<close> prints in debug mode
  only and touches no field; it is left out.

  The session identifier is a JavaScript number that starts at 0 and only ever changes
  by \<^verbatim>\<open>++\<close>; it is modelled as a natural number (the two agree for the first
  \<open>2 ^ 53\<close> increments). Strings are lists of code units below 256.
\<close>

subsection \<open>Strings\<close>

text \<open>\<^verbatim>\<open>String.prototype.trim\<close>: white space and line terminators of the Latin-1 range.\<close>

definition is_space :: "char \<Rightarrow> bool" where
  "is_space c = (c \<in> set [CHR 0x09, CHR 0x0A, CHR 0x0B, CHR 0x0C, CHR 0x0D, CHR 0x20, CHR 0xA0])"

definition trim :: "string \<Rightarrow> string" where
  "trim s = rev (dropWhile is_space (rev (dropWhile is_space s)))"

subsection \<open>Data\<close>

text \<open>A caller-supplied function is known by its identity only.\<close>

type_synonym callback = nat

text \<open>
  The engine object held in \<^verbatim>\<open>this.recognition\<close>. Its four hooks are closures over
  the constant \<^verbatim>\<open>sessionId\<close> of the call that bound them; \<open>hooks\<close> is that captured
  identifier, or \<open>None\<close> while the hooks are \<^verbatim>\<open>null\<close>.
\<close>

datatype handle = Handle (hooks: "nat option")

text \<open>The closure given to \<^verbatim>\<open>setTimeout\<close>: it captures \<^verbatim>\<open>sessionId\<close> and \<^verbatim>\<open>onError\<close>.\<close>

datatype timer = Retry nat "callback option"

datatype effect =
    EngineNew
  | EngineStart
  | EngineStop
  | EngineAbort
  | ConsoleWarn
  | ConsoleError
  | OnTranscript callback string
  | OnError callback string
  | SetTimeout timer nat

datatype start_outcome = Started | StartThrows string

record env =
  api_present :: bool
  ctor_throws :: bool
  start_call :: start_outcome
  stop_throws :: bool

record voice_service =
  recognition :: "handle option"
  currentSessionId :: nat
  activeSessionId :: "nat option"
  isListening :: bool
  finalTranscript :: string
  interimTranscript :: string
  onTranscriptCallback :: "callback option"
  onErrorCallback :: "callback option"
  shouldContinue :: bool
  currentQuestionId :: "string option"

definition new_VoiceService :: voice_service where
  "new_VoiceService =
     \<lparr>recognition = None, currentSessionId = 0, activeSessionId = None, isListening = False,
      finalTranscript = [], interimTranscript = [], onTranscriptCallback = None,
      onErrorCallback = None, shouldContinue = False, currentQuestionId = None\<rparr>"

text \<open>One entry of \<^verbatim>\<open>event.results\<close>: the first alternative's text and the final flag.\<close>

record speech_result =
  transcript :: string
  isFinal :: bool

record result_event =
  resultIndex :: nat
  results :: "speech_result list"

text \<open>\<^verbatim>\<open>if (cb) cb(msg)\<close>\<close>

definition call_error :: "callback option \<Rightarrow> string \<Rightarrow> effect list" where
  "call_error cb msg = (case cb of None \<Rightarrow> [] | Some f \<Rightarrow> [OnError f msg])"

definition call_transcript :: "callback option \<Rightarrow> string \<Rightarrow> effect list" where
  "call_transcript cb txt = (case cb of None \<Rightarrow> [] | Some f \<Rightarrow> [OnTranscript f txt])"

subsection \<open>Handle creation and destruction\<close>

definition createFreshRecognition :: "env \<Rightarrow> handle option \<times> effect list" where
  "createFreshRecognition e =
     (if \<not> api_present e then (None, [ConsoleWarn])
      else if ctor_throws e then (None, [EngineNew, ConsoleError])
      else (Some (Handle None), [EngineNew]))"

definition destroyRecognition :: "voice_service \<Rightarrow> voice_service \<times> effect list" where
  "destroyRecognition s =
     (case recognition s of
        None \<Rightarrow> (s\<lparr>isListening := False\<rparr>, [])
      | Some h \<Rightarrow>
          (s\<lparr>recognition := None, isListening := False\<rparr>,
           if isListening s then [EngineAbort] else []))"

subsection \<open>Stopping and resetting\<close>

definition hardReset :: "voice_service \<Rightarrow> voice_service \<times> effect list" where
  "hardReset s =
     (let s1 = s\<lparr>currentSessionId := currentSessionId s + 1, shouldContinue := False\<rparr>;
          fx1 = (if isListening s1 \<and> recognition s1 \<noteq> None then [EngineAbort] else []);
          s2 = s1\<lparr>finalTranscript := [], interimTranscript := [], isListening := False,
                  activeSessionId := None, onTranscriptCallback := None,
                  onErrorCallback := None\<rparr>;
          (s3, fx2) = destroyRecognition s2
      in (s3, fx1 @ fx2))"

definition stopListening :: "env \<Rightarrow> voice_service \<Rightarrow> voice_service \<times> effect list" where
  "stopListening e s =
     (let s1 = s\<lparr>shouldContinue := False\<rparr>;
          fx = (if recognition s1 \<noteq> None \<and> isListening s1
                then (if stop_throws e then [EngineStop, ConsoleError] else [EngineStop])
                else [])
      in (s1\<lparr>isListening := False\<rparr>, fx))"

definition submitAndStop :: "env \<Rightarrow> voice_service \<Rightarrow> voice_service \<times> effect list" where
  "submitAndStop e s =
     (let s1 = s\<lparr>shouldContinue := False\<rparr>;
          fx = (if recognition s1 \<noteq> None \<and> isListening s1
                then (if stop_throws e then [EngineStop, ConsoleError] else [EngineStop])
                else []);
          s2 = s1\<lparr>isListening := False\<rparr>
      in (s2\<lparr>currentSessionId := currentSessionId s2 + 1, activeSessionId := None\<rparr>, fx))"

definition getCurrentTranscript :: "voice_service \<Rightarrow> string" where
  "getCurrentTranscript s = trim (finalTranscript s @ '' '' @ interimTranscript s)"

definition isActive :: "voice_service \<Rightarrow> bool" where
  "isActive s = isListening s"

definition getSessionId :: "voice_service \<Rightarrow> nat" where
  "getSessionId s = currentSessionId s"

subsection \<open>The event hooks\<close>

text \<open>
  Each hook is a closure over \<^verbatim>\<open>sessionId\<close>, here the first argument \<open>sid\<close>; every
  other name it reads is a field of the live object.
\<close>

definition onstart :: "nat \<Rightarrow> voice_service \<Rightarrow> voice_service \<times> effect list" where
  "onstart sid s = (s\<lparr>isListening := True\<rparr>, [])"

text \<open>
  \<^verbatim>\<open>this.recognition.start()\<close> inside \<^verbatim>\<open>try\<close>: on a \<^verbatim>\<open>null\<close> handle the property
  access throws before any engine is reached, and the \<^verbatim>\<open>catch\<close> runs all the same.
\<close>

definition onend :: "nat \<Rightarrow> env \<Rightarrow> voice_service \<Rightarrow> voice_service \<times> effect list" where
  "onend sid e s =
     (if shouldContinue s \<and> sid = currentSessionId s \<and> isListening s then
        (case recognition s of
           None \<Rightarrow> (s\<lparr>isListening := False\<rparr>, [ConsoleError])
         | Some h \<Rightarrow>
             (case start_call e of
                Started \<Rightarrow> (s, [EngineStart])
              | StartThrows n \<Rightarrow> (s\<lparr>isListening := False\<rparr>, [EngineStart, ConsoleError])))
      else (s\<lparr>isListening := False\<rparr>, []))"

text \<open>The \<^verbatim>\<open>for\<close> loop of the result hook, over the entries from \<^verbatim>\<open>resultIndex\<close> on.\<close>

fun scan_results :: "speech_result list \<Rightarrow> string \<Rightarrow> string \<Rightarrow> string \<times> string" where
  "scan_results [] newFinal newInterim = (newFinal, newInterim)"
| "scan_results (r # rs) newFinal newInterim =
     (if isFinal r then scan_results rs (newFinal @ transcript r @ '' '') newInterim
      else scan_results rs newFinal (newInterim @ transcript r))"

definition onresult :: "nat \<Rightarrow> result_event \<Rightarrow> voice_service \<Rightarrow> voice_service \<times> effect list" where
  "onresult sid ev s =
     (if sid \<noteq> currentSessionId s then (s, [])
      else
        (let (newFinalTranscript, newInterimTranscript) =
               scan_results (drop (resultIndex ev) (results ev)) [] [];
             s1 = (if newFinalTranscript \<noteq> []
                   then s\<lparr>finalTranscript := finalTranscript s @ newFinalTranscript\<rparr>
                   else s);
             currentTranscript = trim (finalTranscript s1 @ '' '' @ newInterimTranscript)
         in (s1, call_transcript (onTranscriptCallback s1) currentTranscript)))"

definition error_message :: "string \<Rightarrow> string" where
  "error_message kind =
     (if kind = ''audio-capture'' then ''No microphone found''
      else if kind = ''not-allowed'' then ''Microphone access denied''
      else ''Error: '' @ kind)"

definition onerror :: "nat \<Rightarrow> string \<Rightarrow> voice_service \<Rightarrow> voice_service \<times> effect list" where
  "onerror sid kind s =
     (if sid \<noteq> currentSessionId s then (s, [])
      else if kind = ''no-speech'' \<or> kind = ''aborted'' then (s, [])
      else (s\<lparr>isListening := False\<rparr>, call_error (onErrorCallback s) (error_message kind)))"

subsection \<open>Starting a session\<close>

definition startListeningForQuestion ::
  "string option \<Rightarrow> callback option \<Rightarrow> callback option \<Rightarrow> env \<Rightarrow> voice_service
     \<Rightarrow> bool \<times> voice_service \<times> effect list" where
  "startListeningForQuestion questionId onTranscript onError e s =
     (let (s1, fx1) =
            (if currentQuestionId s \<noteq> questionId
             then (let (r, fx) = hardReset s in (r\<lparr>currentQuestionId := questionId\<rparr>, fx))
             else (s, []));
          sessionId = currentSessionId s1 + 1;
          s2 = s1\<lparr>currentSessionId := sessionId, activeSessionId := Some sessionId\<rparr>;
          (s3, fx3) = destroyRecognition s2;
          (created, fx4) = createFreshRecognition e;
          fx = fx1 @ fx3 @ fx4
      in case created of
           None \<Rightarrow>
             (False, s3\<lparr>recognition := None\<rparr>,
              fx @ call_error onError ''Speech recognition not supported'')
         | Some h \<Rightarrow>
             (let s4 = s3\<lparr>recognition := Some (Handle (Some sessionId)),
                          finalTranscript := [], interimTranscript := [],
                          onTranscriptCallback := onTranscript, onErrorCallback := onError,
                          shouldContinue := True\<rparr>
              in case start_call e of
                   Started \<Rightarrow> (True, s4, fx @ [EngineStart])
                 | StartThrows name \<Rightarrow>
                     (if name = ''InvalidStateError'' then
                        (if stop_throws e
                         then (False, s4,
                               fx @ [EngineStart, ConsoleError, EngineStop]
                                  @ call_error onError ''Failed to start voice input'')
                         else (False, s4,
                               fx @ [EngineStart, ConsoleError, EngineStop,
                                     SetTimeout (Retry sessionId onError) 100]))
                      else (False, s4,
                            fx @ [EngineStart, ConsoleError]
                               @ call_error onError ''Failed to start voice input''))))"

text \<open>The body of the timer closure, run when the 100 ms have passed.\<close>

fun timer_fire :: "timer \<Rightarrow> env \<Rightarrow> voice_service \<Rightarrow> voice_service \<times> effect list" where
  "timer_fire (Retry sid onError) e s =
     (if sid = currentSessionId s then
        (case recognition s of
           None \<Rightarrow> (s, call_error onError ''Failed to start voice input'')
         | Some h \<Rightarrow>
             (case start_call e of
                Started \<Rightarrow> (s, [EngineStart])
              | StartThrows n \<Rightarrow>
                  (s, EngineStart # call_error onError ''Failed to start voice input'')))
      else (s, []))"

subsection \<open>Histories\<close>

text \<open>
  What can happen to a service object, one entry per method call, hook invocation or timer
  expiry. A hook invocation names the session identifier its closure captured.
\<close>

datatype action =
    CallStart "string option" "callback option" "callback option"
  | CallHardReset
  | CallStop
  | CallSubmit
  | StartEvent nat
  | EndEvent nat
  | ResultEvent nat result_event
  | ErrorEvent nat string
  | TimerExpiry timer

fun step :: "env \<times> action \<Rightarrow> voice_service \<Rightarrow> voice_service \<times> effect list" where
  "step (e, CallStart q onT onE) s = snd (startListeningForQuestion q onT onE e s)"
| "step (e, CallHardReset) s = hardReset s"
| "step (e, CallStop) s = stopListening e s"
| "step (e, CallSubmit) s = submitAndStop e s"
| "step (e, StartEvent sid) s = onstart sid s"
| "step (e, EndEvent sid) s = onend sid e s"
| "step (e, ResultEvent sid ev) s = onresult sid ev s"
| "step (e, ErrorEvent sid kind) s = onerror sid kind s"
| "step (e, TimerExpiry t) s = timer_fire t e s"

fun run :: "(env \<times> action) list \<Rightarrow> voice_service \<Rightarrow> voice_service" where
  "run [] s = s"
| "run (a # as) s = run as (fst (step a s))"

text \<open>The session identifier after each entry of a history.\<close>

fun session_ids :: "(env \<times> action) list \<Rightarrow> voice_service \<Rightarrow> nat list" where
  "session_ids [] s = []"
| "session_ids (a # as) s =
     currentSessionId (fst (step a s)) # session_ids as (fst (step a s))"

fun bumps_session :: "action \<Rightarrow> bool" where
  "bumps_session (CallStart q onT onE) = True"
| "bumps_session CallHardReset = True"
| "bumps_session CallSubmit = True"
| "bumps_session a = False"

text \<open>Platforms used in examples.\<close>

definition working :: env where
  "working = \<lparr>api_present = True, ctor_throws = False, start_call = Started, stop_throws = False\<rparr>"

definition no_engine :: env where
  "no_engine = \<lparr>api_present = False, ctor_throws = False, start_call = Started, stop_throws = False\<rparr>"

definition already_started :: env where
  "already_started =
     \<lparr>api_present = True, ctor_throws = False,
      start_call = StartThrows ''InvalidStateError'', stop_throws = False\<rparr>"

definition interim :: "string \<Rightarrow> result_event" where
  "interim txt = \<lparr>resultIndex = 0, results = [\<lparr>transcript = txt, isFinal = False\<rparr>]\<rparr>"

definition final :: "string \<Rightarrow> result_event" where
  "final txt = \<lparr>resultIndex = 0, results = [\<lparr>transcript = txt, isFinal = True\<rparr>]\<rparr>"

text \<open>The state in which the session of a call to \<open>startListeningForQuestion\<close> begins.\<close>

definition question_checked :: "string option \<Rightarrow> voice_service \<Rightarrow> voice_service" where
  "question_checked q s =
     (if currentQuestionId s \<noteq> q then (fst (hardReset s))\<lparr>currentQuestionId := q\<rparr> else s)"

text \<open>
  The session identifiers captured by the hooks of the handles that a history creates:
  one for every call of \<open>startListeningForQuestion\<close> that gets an engine.
\<close>

fun handle_made :: "env \<times> action \<Rightarrow> voice_service \<Rightarrow> nat list" where
  "handle_made (e, CallStart q onT onE) s =
     (if api_present e \<and> \<not> ctor_throws e
      then [currentSessionId (fst (step (e, CallStart q onT onE) s))]
      else [])"
| "handle_made (e, a) s = []"

fun handles_made :: "(env \<times> action) list \<Rightarrow> voice_service \<Rightarrow> nat list" where
  "handles_made [] s = []"
| "handles_made (a # as) s = handle_made a s @ handles_made as (fst (step a s))"

text \<open>Example histories on a fresh object.\<close>

definition spoken :: "(env \<times> action) list" where
  "spoken = [(working, CallStart (Some ''Q1'') (Some 1) (Some 2)),
            (working, StartEvent 2),
            (working, ResultEvent 2 (final ''hello''))]"

definition three_calls :: "(env \<times> action) list" where
  "three_calls = [(working, CallStart (Some ''Q1'') (Some 1) (Some 2)),
                 (working, CallSubmit),
                 (working, CallStart (Some ''Q1'') (Some 1) (Some 2)),
                 (no_engine, CallHardReset)]"

definition started :: "(env \<times> action) list" where
  "started = [(working, CallStart (Some ''Q1'') (Some 1) (Some 2)),
             (working, StartEvent 2)]"

definition started_mute :: "(env \<times> action) list" where
  "started_mute = [(working, CallStart (Some ''Q1'') (Some 1) None),
                  (working, StartEvent 2)]"

definition answering :: "(env \<times> action) list" where
  "answering = started @
     [(working, ResultEvent 2 (final ''yes'')),
      (working, ResultEvent 2 (final ''it works'')),
      (working, ResultEvent 2 (interim ''because''))]"

text \<open>The text of the finalized and of the interim entries of an event, in the loop's order.\<close>

definition final_text :: "result_event \<Rightarrow> string" where
  "final_text ev =
     concat (map (\<lambda>r. transcript r @ '' '') (filter isFinal (drop (resultIndex ev) (results ev))))"

definition interim_text :: "result_event \<Rightarrow> string" where
  "interim_text ev =
     concat (map transcript (filter (\<lambda>r. \<not> isFinal r) (drop (resultIndex ev) (results ev))))"

text \<open>Which outside calls reach the caller, and which arm a timer.\<close>

fun is_callback :: "effect \<Rightarrow> bool" where
  "is_callback (OnTranscript cb txt) = True"
| "is_callback (OnError cb msg) = True"
| "is_callback x = False"

fun is_timer :: "effect \<Rightarrow> bool" where
  "is_timer (SetTimeout t d) = True"
| "is_timer x = False"


definition superseded_retry :: "(env \<times> action) list" where
  "superseded_retry = [(already_started, CallStart (Some ''Q1'') (Some 1) (Some 2)),
                       (working, CallHardReset)]"



section \<open>Basic facts\<close>

subsection \<open>What each method leaves behind\<close>

lemma destroyRecognition_state:
  "fst (destroyRecognition s) = s\<lparr>recognition := None, isListening := False\<rparr>"
  by (simp add: destroyRecognition_def split: option.split)

lemma destroyRecognition_effects:
  "snd (destroyRecognition s) =
     (if recognition s \<noteq> None \<and> isListening s then [EngineAbort] else [])"
  by (simp add: destroyRecognition_def split: option.split)

lemma hardReset_state:
  "fst (hardReset s) =
     s\<lparr>recognition := None, currentSessionId := currentSessionId s + 1,
       activeSessionId := None, isListening := False, finalTranscript := [],
       interimTranscript := [], onTranscriptCallback := None, onErrorCallback := None,
       shouldContinue := False\<rparr>"
  by (simp add: hardReset_def Let_def case_prod_beta destroyRecognition_state)

lemma hardReset_effects:
  "snd (hardReset s) =
     (if isListening s \<and> recognition s \<noteq> None then [EngineAbort] else [])"
  by (simp add: hardReset_def Let_def case_prod_beta destroyRecognition_effects)

lemma submitAndStop_state:
  "fst (submitAndStop e s) =
     s\<lparr>currentSessionId := currentSessionId s + 1, activeSessionId := None,
       isListening := False, shouldContinue := False\<rparr>"
  by (simp add: submitAndStop_def Let_def)

lemma submitAndStop_effects:
  "snd (submitAndStop e s) =
     (if recognition s \<noteq> None \<and> isListening s
      then (if stop_throws e then [EngineStop, ConsoleError] else [EngineStop])
      else [])"
  by (simp add: submitAndStop_def Let_def)

lemma stopListening_state:
  "fst (stopListening e s) = s\<lparr>isListening := False, shouldContinue := False\<rparr>"
  by (simp add: stopListening_def Let_def)

lemma createFreshRecognition_handle:
  "fst (createFreshRecognition e) =
     (if api_present e \<and> \<not> ctor_throws e then Some (Handle None) else None)"
  by (simp add: createFreshRecognition_def)

lemma createFreshRecognition_effects:
  "snd (createFreshRecognition e) =
     (if \<not> api_present e then [ConsoleWarn]
      else if ctor_throws e then [EngineNew, ConsoleError] else [EngineNew])"
  by (simp add: createFreshRecognition_def)

lemma startListeningForQuestion_state:
  "fst (snd (startListeningForQuestion q onT onE e s)) =
     (let s1 = question_checked q s;
          sid = currentSessionId s1 + 1;
          s3 = s1\<lparr>recognition := None, currentSessionId := sid,
                  activeSessionId := Some sid, isListening := False\<rparr>
      in if api_present e \<and> \<not> ctor_throws e
         then s3\<lparr>recognition := Some (Handle (Some sid)), finalTranscript := [],
                 interimTranscript := [], onTranscriptCallback := onT,
                 onErrorCallback := onE, shouldContinue := True\<rparr>
         else s3)"
  by (simp add: startListeningForQuestion_def question_checked_def Let_def case_prod_beta
      destroyRecognition_state createFreshRecognition_handle split: start_outcome.split)

lemma startListeningForQuestion_result:
  "fst (startListeningForQuestion q onT onE e s) =
     (api_present e \<and> \<not> ctor_throws e \<and> start_call e = Started)"
  by (simp add: startListeningForQuestion_def Let_def case_prod_beta
      createFreshRecognition_handle split: start_outcome.split)

lemma startListeningForQuestion_session:
  "currentSessionId (fst (snd (startListeningForQuestion q onT onE e s))) =
     (if currentQuestionId s \<noteq> q then currentSessionId s + 2 else currentSessionId s + 1)"
  by (simp add: startListeningForQuestion_state question_checked_def hardReset_state Let_def)

lemmas eval_defs = new_VoiceService_def working_def no_engine_def already_started_def final_def interim_def startListeningForQuestion_def hardReset_def
  destroyRecognition_def createFreshRecognition_def onresult_def onerror_def onstart_def
  onend_def stopListening_def submitAndStop_def call_transcript_def call_error_def
  getCurrentTranscript_def trim_def is_space_def error_message_def Let_def

subsection \<open>Session identifiers along a history\<close>

lemma step_bumps:
  "bumps_session a \<Longrightarrow> currentSessionId s < currentSessionId (fst (step (e, a) s))"
  by (cases a)
    (simp_all add: startListeningForQuestion_session hardReset_state submitAndStop_state)

lemma step_session_or_same:
  "currentSessionId s < currentSessionId (fst (step (e, a) s)) \<or>
   currentSessionId (fst (step (e, a) s)) = currentSessionId s \<and>
   recognition (fst (step (e, a) s)) = recognition s"
proof (cases a)
  case (CallStart q onT onE)
  then show ?thesis by (simp add: startListeningForQuestion_session)
next
  case (EndEvent sid)
  then show ?thesis by (simp add: onend_def split: option.split start_outcome.split)
next
  case (ResultEvent sid ev)
  then show ?thesis by (simp add: onresult_def Let_def case_prod_beta)
next
  case (TimerExpiry t)
  then show ?thesis by (cases t) (simp split: option.split start_outcome.split)
qed (simp_all add: hardReset_state stopListening_state submitAndStop_state onstart_def
  onerror_def)

lemma handle_made_held:
  "sid \<in> set (handle_made (e, a) s) \<Longrightarrow>
     sid = currentSessionId (fst (step (e, a) s)) \<and>
     recognition (fst (step (e, a) s)) = Some (Handle (Some sid))"
  by (cases a) (simp_all add: startListeningForQuestion_state Let_def split: if_splits)

text \<open>
  Every handle made so far captured an identifier that is at most the current one, and
  the handle that captured the current one is the handle held.
\<close>

lemma handles_made_step:
  assumes "\<forall>sid \<in> set ms. sid \<le> currentSessionId s \<and>
             (sid = currentSessionId s \<longrightarrow> recognition s = Some (Handle (Some sid)))"
  shows "\<forall>sid \<in> set (ms @ handle_made (e, a) s).
           sid \<le> currentSessionId (fst (step (e, a) s)) \<and>
           (sid = currentSessionId (fst (step (e, a) s)) \<longrightarrow>
              recognition (fst (step (e, a) s)) = Some (Handle (Some sid)))"
proof
  fix sid
  assume "sid \<in> set (ms @ handle_made (e, a) s)"
  then consider (old) "sid \<in> set ms" | (new) "sid \<in> set (handle_made (e, a) s)"
    by auto
  then show "sid \<le> currentSessionId (fst (step (e, a) s)) \<and>
           (sid = currentSessionId (fst (step (e, a) s)) \<longrightarrow>
              recognition (fst (step (e, a) s)) = Some (Handle (Some sid)))"
  proof cases
    case old
    with assms have le: "sid \<le> currentSessionId s"
      and held: "sid = currentSessionId s \<Longrightarrow> recognition s = Some (Handle (Some sid))"
      by auto
    from step_session_or_same [of s e a] show ?thesis
    proof
      assume "currentSessionId s < currentSessionId (fst (step (e, a) s))"
      with le show ?thesis by simp
    next
      assume "currentSessionId (fst (step (e, a) s)) = currentSessionId s \<and>
        recognition (fst (step (e, a) s)) = recognition s"
      with le held show ?thesis by auto
    qed
  next
    case new
    then show ?thesis using handle_made_held by blast
  qed
qed

lemma handles_made_run:
  assumes "\<forall>sid \<in> set ms. sid \<le> currentSessionId s \<and>
             (sid = currentSessionId s \<longrightarrow> recognition s = Some (Handle (Some sid)))"
  shows "\<forall>sid \<in> set (ms @ handles_made h s).
           sid \<le> currentSessionId (run h s) \<and>
           (sid = currentSessionId (run h s) \<longrightarrow>
              recognition (run h s) = Some (Handle (Some sid)))"
  using assms
proof (induction h arbitrary: ms s)
  case Nil
  then show ?case by simp
next
  case (Cons a h)
  obtain e b where a: "a = (e, b)" by (cases a)
  from handles_made_step [OF Cons.prems, of e b]
  have "\<forall>sid \<in> set ((ms @ handle_made a s) @ handles_made h (fst (step a s))).
          sid \<le> currentSessionId (run h (fst (step a s))) \<and>
          (sid = currentSessionId (run h (fst (step a s))) \<longrightarrow>
             recognition (run h (fst (step a s))) = Some (Handle (Some sid)))"
    unfolding a by (rule Cons.IH)
  then show ?case by simp
qed

lemma handles_made_bounded:
  "sid \<in> set (handles_made h s) \<Longrightarrow> sid \<le> currentSessionId (run h s)"
  using handles_made_run [of "[]" s h] by simp

lemma handles_made_current_held:
  "sid \<in> set (handles_made h s) \<Longrightarrow> sid = currentSessionId (run h s) \<Longrightarrow>
     recognition (run h s) = Some (Handle (Some sid))"
  using handles_made_run [of "[]" s h] by simp


lemma session_ids_above:
  "\<forall>a \<in> set h. bumps_session (snd a) \<Longrightarrow> \<forall>y \<in> set (session_ids h s). currentSessionId s < y"
proof (induction h arbitrary: s)
  case Nil
  then show ?case by simp
next
  case (Cons a h)
  obtain e b where a: "a = (e, b)" by (cases a)
  from Cons.prems a have b: "bumps_session b" by simp
  have lt: "currentSessionId s < currentSessionId (fst (step a s))"
    using step_bumps [OF b] a by simp
  from Cons.prems have "\<forall>a \<in> set h. bumps_session (snd a)" by simp
  from Cons.IH [OF this, of "fst (step a s)"] lt show ?case
    by (auto intro: less_trans)
qed


section \<open>Stale events\<close>

lemma onresult_stale: "sid \<noteq> currentSessionId s \<Longrightarrow> onresult sid ev s = (s, [])"
  by (simp add: onresult_def)

lemma onerror_stale: "sid \<noteq> currentSessionId s \<Longrightarrow> onerror sid kind s = (s, [])"
  by (simp add: onerror_def)

lemma getCurrentTranscript_submitAndStop:
  "getCurrentTranscript (fst (submitAndStop e s)) = getCurrentTranscript s"
  by (simp add: submitAndStop_state getCurrentTranscript_def)

lemma spoken_state: "run spoken new_VoiceService =
  \<lparr>recognition = Some (Handle (Some 2)), currentSessionId = 2,
    activeSessionId = Some 2, isListening = True,
    finalTranscript = ''hello '', interimTranscript = [],
    onTranscriptCallback = Some 1, onErrorCallback = Some 2,
    shouldContinue = True, currentQuestionId = Some ''Q1''\<rparr>"
  by (simp add: spoken_def eval_defs)


text \<open>
  Claim C1. A result or error event whose hook captured a session identifier other than
  the current one calls neither callback and changes no field at all, so both transcript
  parts stay as they were. In particular, on an object with any history since its
  construction: once \<open>submitAndStop\<close> has run, a result event from any handle made
  during that history is discarded, and \<open>getCurrentTranscript\<close> reads what it read
  before.
\<close>

theorem stale_events_are_discarded:
  "(sid \<noteq> currentSessionId s \<longrightarrow>
      onresult sid ev s = (s, []) \<and> onerror sid kind s = (s, [])) \<and>
   (old \<in> set (handles_made h new_VoiceService) \<longrightarrow>
      onresult old ev (fst (submitAndStop e (run h new_VoiceService))) =
        (fst (submitAndStop e (run h new_VoiceService)), []) \<and>
      getCurrentTranscript
        (fst (onresult old ev (fst (submitAndStop e (run h new_VoiceService))))) =
        getCurrentTranscript (run h new_VoiceService))"
proof (intro conjI impI)
  assume "sid \<noteq> currentSessionId s"
  then show "onresult sid ev s = (s, [])" by (rule onresult_stale)
next
  assume "sid \<noteq> currentSessionId s"
  then show "onerror sid kind s = (s, [])" by (rule onerror_stale)
next
  let ?s0 = "run h new_VoiceService"
  let ?s1 = "fst (submitAndStop e ?s0)"
  assume "old \<in> set (handles_made h new_VoiceService)"
  then have "old \<le> currentSessionId ?s0" by (rule handles_made_bounded)
  then have stale: "old \<noteq> currentSessionId ?s1" by (simp add: submitAndStop_state)
  then show discarded: "onresult old ev ?s1 = (?s1, [])" by (rule onresult_stale)
  then show "getCurrentTranscript (fst (onresult old ev ?s1)) = getCurrentTranscript ?s0"
    by (simp add: getCurrentTranscript_submitAndStop)
qed

theorem stale_events_are_discarded_witness:
  "1 \<noteq> currentSessionId (run spoken new_VoiceService) \<and>
   onresult 1 (final ''late'') (run spoken new_VoiceService) = (run spoken new_VoiceService, []) \<and>
   onerror 1 ''network'' (run spoken new_VoiceService) = (run spoken new_VoiceService, []) \<and>
   2 \<in> set (handles_made spoken new_VoiceService) \<and>
   getCurrentTranscript
     (fst (onresult 2 (final ''late'') (fst (submitAndStop working (run spoken new_VoiceService))))) =
     ''hello''"
proof -
  let ?s = "run spoken new_VoiceService"
  note inst = stale_events_are_discarded
    [of 1 ?s "final ''late''" "''network''" 2 spoken working]
  have a: "1 \<noteq> currentSessionId ?s" by (simp add: spoken_state)
  have b: "2 \<in> set (handles_made spoken new_VoiceService)"
    by (simp add: spoken_def eval_defs)
  have c: "getCurrentTranscript ?s = ''hello''"
    by (simp add: spoken_state getCurrentTranscript_def trim_def is_space_def)
  from inst a have r: "onresult 1 (final ''late'') ?s = (?s, [])"
    "onerror 1 ''network'' ?s = (?s, [])" by blast+
  from inst b have
    "getCurrentTranscript (fst (onresult 2 (final ''late'') (fst (submitAndStop working ?s)))) =
       getCurrentTranscript ?s" by blast
  from this c have d:
    "getCurrentTranscript (fst (onresult 2 (final ''late'') (fst (submitAndStop working ?s)))) =
       ''hello''" by (rule trans)
  from a r b d show ?thesis by (intro conjI)
qed

section \<open>Session monotonicity\<close>

text \<open>
  Claim C2. Along every sequence of calls to \<open>startListeningForQuestion\<close>,
  \<open>hardReset\<close> and \<open>submitAndStop\<close> (with any arguments, on any platform, from any
  state) each call leaves the session identifier strictly greater than before: the
  identifiers seen after the calls form a strictly increasing list, so none occurs twice.
\<close>

theorem session_id_strictly_increasing:
  "\<forall>a \<in> set h. bumps_session (snd a) \<Longrightarrow>
     sorted_wrt (<) (currentSessionId s # session_ids h s) \<and>
     distinct (currentSessionId s # session_ids h s)"
proof (induction h arbitrary: s)
  case Nil
  then show ?case by simp
next
  case (Cons a h)
  from Cons.prems have rest: "\<forall>a \<in> set h. bumps_session (snd a)" by simp
  have above: "\<forall>y \<in> set (session_ids (a # h) s). currentSessionId s < y"
    by (rule session_ids_above [OF Cons.prems])
  from Cons.IH [OF rest, of "fst (step a s)"] above show ?case
    by auto
qed

theorem session_id_strictly_increasing_witness:
  "list_all (\<lambda>a. bumps_session (snd a)) three_calls \<and>
   currentSessionId new_VoiceService # session_ids three_calls new_VoiceService =
     [0, 2, 3, 4, 5] \<and>
   sorted_wrt (<) (currentSessionId new_VoiceService # session_ids three_calls new_VoiceService) \<and>
   distinct (currentSessionId new_VoiceService # session_ids three_calls new_VoiceService)"
proof -
  have all: "\<forall>a \<in> set three_calls. bumps_session (snd a)"
    by (simp add: three_calls_def)
  then have all': "list_all (\<lambda>a. bumps_session (snd a)) three_calls"
    by (simp add: list_all_iff)
  have ids: "currentSessionId new_VoiceService # session_ids three_calls new_VoiceService =
      [0, 2, 3, 4, 5]"
    by (simp add: three_calls_def eval_defs)
  from all' ids session_id_strictly_increasing [OF all, of new_VoiceService] show ?thesis
    by blast
qed

section \<open>Transcript assembly\<close>

lemma scan_results_eq:
  "scan_results rs nf ni =
     (nf @ concat (map (\<lambda>r. transcript r @ '' '') (filter isFinal rs)),
      ni @ concat (map transcript (filter (\<lambda>r. \<not> isFinal r) rs)))"
  by (induction rs arbitrary: nf ni) simp_all

lemma onresult_current:
  "sid = currentSessionId s \<Longrightarrow>
     onresult sid ev s =
       (s\<lparr>finalTranscript := finalTranscript s @ final_text ev\<rparr>,
        call_transcript (onTranscriptCallback s)
          (trim (finalTranscript s @ final_text ev @ '' '' @ interim_text ev)))"
  by (simp add: onresult_def scan_results_eq final_text_def interim_text_def Let_def)

lemma onresult_interim_unchanged:
  "interimTranscript (fst (onresult sid ev s)) = interimTranscript s"
proof (cases "sid = currentSessionId s")
  case True
  then show ?thesis by (simp add: onresult_current)
next
  case False
  then show ?thesis by (simp add: onresult_def)
qed

lemma final_text_final [simp]: "final_text (final txt) = txt @ '' ''"
  by (simp add: final_text_def final_def)

lemma interim_text_final [simp]: "interim_text (final txt) = []"
  by (simp add: interim_text_def final_def)

lemma final_text_interim [simp]: "final_text (interim txt) = []"
  by (simp add: final_text_def interim_def)

lemma interim_text_interim [simp]: "interim_text (interim txt) = txt"
  by (simp add: interim_text_def interim_def)

lemma started_state: "run started new_VoiceService =
  \<lparr>recognition = Some (Handle (Some 2)), currentSessionId = 2,
    activeSessionId = Some 2, isListening = True,
    finalTranscript = [], interimTranscript = [],
    onTranscriptCallback = Some 1, onErrorCallback = Some 2,
    shouldContinue = True, currentQuestionId = Some ''Q1''\<rparr>"
  by (simp add: started_def eval_defs)

lemma trim_blank: "trim '' '' = []"
  by (simp add: trim_def is_space_def)

text \<open>
  Claim C3 at its own input: on a fresh object with a started session, the final
  fragments \<open>''yes ''\<close> and \<open>''it works ''\<close> are appended in that order and a last
  result event carries the interim fragment \<open>''because''\<close>. The claim expects
  \<open>getCurrentTranscript\<close> to return \<open>''yes it works because''\<close>. The result hook does
  pass the interim text on to \<open>onTranscript\<close>, but it never writes the interim buffer
  that \<open>getCurrentTranscript\<close> reads, so \<open>getCurrentTranscript\<close> returns
  \<open>''yes it works''\<close>, without the interim text.
\<close>

theorem transcript_omits_interim_text:
  "finalTranscript (run (butlast answering) new_VoiceService) = ''yes it works '' \<and>
   last answering = (working, ResultEvent 2 (interim ''because'')) \<and>
   currentSessionId (run (butlast answering) new_VoiceService) = 2 \<and>
   snd (step (last answering) (run (butlast answering) new_VoiceService)) =
     [OnTranscript 1 ''yes it works  because''] \<and>
   interimTranscript (run answering new_VoiceService) = [] \<and>
   getCurrentTranscript (run answering new_VoiceService) = ''yes it works'' \<and>
   getCurrentTranscript (run answering new_VoiceService) \<noteq> ''yes it works because''"
  by (simp add: answering_def started_def eval_defs)

text \<open>
  Claim C4 at a failing input: on a fresh object with a started session, a result event
  with the one interim entry \<open>''because''\<close> passes that text to \<open>onTranscript\<close>, but
  the interim buffer is still empty afterwards and \<open>getCurrentTranscript\<close> returns the
  empty string. (\<open>onresult_interim_unchanged\<close>: no result event ever writes the interim
  buffer; \<open>onresult_current\<close>: the final buffer grows by each finalized fragment
  followed by one space.)
\<close>

theorem interim_buffer_never_written:
  "snd (step (working, ResultEvent 2 (interim ''because'')) (run started new_VoiceService)) =
     [OnTranscript 1 ''because''] \<and>
   interimTranscript
     (fst (step (working, ResultEvent 2 (interim ''because'')) (run started new_VoiceService))) = [] \<and>
   getCurrentTranscript
     (fst (step (working, ResultEvent 2 (interim ''because'')) (run started new_VoiceService))) = []"
  by (simp add: started_state onresult_current call_transcript_def getCurrentTranscript_def trim_def is_space_def)


section \<open>Question change\<close>

lemma startListeningForQuestion_question:
  "currentQuestionId (fst (snd (startListeningForQuestion q onT onE e s))) = q"
  by (simp add: startListeningForQuestion_state question_checked_def hardReset_state Let_def)

lemma startListeningForQuestion_changed_question:
  "currentQuestionId s \<noteq> q \<Longrightarrow>
     finalTranscript (fst (snd (startListeningForQuestion q onT onE e s))) = [] \<and>
     interimTranscript (fst (snd (startListeningForQuestion q onT onE e s))) = []"
  by (simp add: startListeningForQuestion_state question_checked_def hardReset_state Let_def)


text \<open>
  Claim C5. Two calls of \<open>startListeningForQuestion\<close> in a row for different questions,
  from any state, on any platform and whatever the outcome of either call: when the second
  returns, both transcript buffer parts are empty and \<open>getCurrentTranscript\<close> returns
  the empty string.
\<close>

theorem question_change_clears_buffers:
  assumes "q1 \<noteq> q2"
  shows "finalTranscript (fst (snd (startListeningForQuestion q2 onT2 onE2 e2
            (fst (snd (startListeningForQuestion q1 onT1 onE1 e1 s)))))) = [] \<and>
         interimTranscript (fst (snd (startListeningForQuestion q2 onT2 onE2 e2
            (fst (snd (startListeningForQuestion q1 onT1 onE1 e1 s)))))) = [] \<and>
         getCurrentTranscript (fst (snd (startListeningForQuestion q2 onT2 onE2 e2
            (fst (snd (startListeningForQuestion q1 onT1 onE1 e1 s)))))) = []"
proof -
  let ?s1 = "fst (snd (startListeningForQuestion q1 onT1 onE1 e1 s))"
  let ?s2 = "fst (snd (startListeningForQuestion q2 onT2 onE2 e2 ?s1))"
  have "currentQuestionId ?s1 = q1" by (rule startListeningForQuestion_question)
  with assms have "currentQuestionId ?s1 \<noteq> q2" by simp
  then have empty: "finalTranscript ?s2 = [] \<and> interimTranscript ?s2 = []"
    by (rule startListeningForQuestion_changed_question)
  then have "getCurrentTranscript ?s2 = []"
    by (simp add: getCurrentTranscript_def trim_blank)
  with empty show ?thesis by simp
qed

theorem question_change_clears_buffers_witness:
  "Some ''Q1'' \<noteq> Some ''Q2'' \<and>
   finalTranscript (run spoken new_VoiceService) = ''hello '' \<and>
   finalTranscript (fst (snd (startListeningForQuestion (Some ''Q1'') (Some 3) (Some 4) no_engine
       (run spoken new_VoiceService)))) = ''hello '' \<and>
   getCurrentTranscript (fst (snd (startListeningForQuestion (Some ''Q2'') (Some 5) (Some 6) working
       (fst (snd (startListeningForQuestion (Some ''Q1'') (Some 3) (Some 4) no_engine
          (run spoken new_VoiceService))))))) = []"
proof -
  have a: "Some ''Q1'' \<noteq> Some ''Q2''" by simp
  have b: "finalTranscript (run spoken new_VoiceService) = ''hello ''"
    by (simp add: spoken_state)
  have c: "finalTranscript (fst (snd (startListeningForQuestion (Some ''Q1'') (Some 3) (Some 4)
       no_engine (run spoken new_VoiceService)))) = ''hello ''"
    by (simp add: spoken_state startListeningForQuestion_state question_checked_def no_engine_def Let_def)
  from question_change_clears_buffers [OF a, of "Some 5" "Some 6" working "Some 3" "Some 4"
      no_engine "run spoken new_VoiceService"] a b c
  show ?thesis by blast
qed

section \<open>Callbacks and timers of a call\<close>

lemma is_callback_call_error [simp]: "filter is_callback (call_error cb msg) = call_error cb msg"
  by (simp add: call_error_def split: option.split)

lemma is_timer_call_error [simp]: "filter is_timer (call_error cb msg) = []"
  by (simp add: call_error_def split: option.split)

lemma is_callback_destroyRecognition [simp]:
  "filter is_callback (snd (destroyRecognition s)) = []"
  by (simp add: destroyRecognition_effects)

lemma is_timer_destroyRecognition [simp]:
  "filter is_timer (snd (destroyRecognition s)) = []"
  by (simp add: destroyRecognition_effects)

lemma is_callback_hardReset [simp]: "filter is_callback (snd (hardReset s)) = []"
  by (simp add: hardReset_effects)

lemma is_timer_hardReset [simp]: "filter is_timer (snd (hardReset s)) = []"
  by (simp add: hardReset_effects)

lemma is_callback_createFreshRecognition [simp]:
  "filter is_callback (snd (createFreshRecognition e)) = []"
  by (simp add: createFreshRecognition_effects)

lemma is_timer_createFreshRecognition [simp]:
  "filter is_timer (snd (createFreshRecognition e)) = []"
  by (simp add: createFreshRecognition_effects)

text \<open>The callbacks and the timers of a call to \<open>startListeningForQuestion\<close>.\<close>

lemma startListeningForQuestion_callbacks:
  "filter is_callback (snd (snd (startListeningForQuestion q onT onE e s))) =
     (if \<not> (api_present e \<and> \<not> ctor_throws e)
      then call_error onE ''Speech recognition not supported''
      else case start_call e of
             Started \<Rightarrow> []
           | StartThrows name \<Rightarrow>
               if name = ''InvalidStateError'' \<and> \<not> stop_throws e then []
               else call_error onE ''Failed to start voice input'')"
  by (simp add: startListeningForQuestion_def Let_def case_prod_beta
      createFreshRecognition_handle split: start_outcome.split)

lemma startListeningForQuestion_timers:
  "filter is_timer (snd (snd (startListeningForQuestion q onT onE e s))) =
     (if api_present e \<and> \<not> ctor_throws e \<and>
         start_call e = StartThrows ''InvalidStateError'' \<and> \<not> stop_throws e
      then [SetTimeout
              (Retry (currentSessionId (fst (snd (startListeningForQuestion q onT onE e s)))) onE)
              100]
      else [])"
  by (simp add: startListeningForQuestion_def Let_def case_prod_beta
      createFreshRecognition_handle destroyRecognition_state split: start_outcome.split)

section \<open>The end event\<close>

text \<open>
  Claim C6. An end event makes the service call the engine's \<open>start\<close> again only when
  the continuation flag is set, the hook's captured session identifier is the current one
  and the service is marked listening. Whenever these three hold and the service holds a
  handle, it does call \<open>start\<close>: if the call succeeds nothing changes, if it throws the
  service is marked not listening, and no callback is invoked either way. The service
  does hold a handle whenever the three hold for an event from a handle made during the
  object's history. In every other case the service is marked not listening and makes no
  outside call at all; so an end event that arrives after \<open>stopListening\<close> changes
  nothing and restarts nothing.
\<close>

theorem end_event_restart_decision:
  "(EngineStart \<in> set (snd (onend sid e s)) \<longrightarrow>
      shouldContinue s \<and> sid = currentSessionId s \<and> isListening s) \<and>
   (shouldContinue s \<and> sid = currentSessionId s \<and> isListening s \<and> recognition s \<noteq> None \<longrightarrow>
      EngineStart \<in> set (snd (onend sid e s)) \<and>
      filter is_callback (snd (onend sid e s)) = [] \<and>
      fst (onend sid e s) = (if start_call e = Started then s else s\<lparr>isListening := False\<rparr>)) \<and>
   (made \<in> set (handles_made h new_VoiceService) \<and>
    shouldContinue (run h new_VoiceService) \<and> made = currentSessionId (run h new_VoiceService) \<and>
    isListening (run h new_VoiceService) \<longrightarrow>
      EngineStart \<in> set (snd (onend made e (run h new_VoiceService)))) \<and>
   (\<not> (shouldContinue s \<and> sid = currentSessionId s \<and> isListening s) \<longrightarrow>
      onend sid e s = (s\<lparr>isListening := False\<rparr>, [])) \<and>
   onend sid e (fst (stopListening e' s)) = (fst (stopListening e' s), [])"
proof -
  have only_if: "EngineStart \<in> set (snd (onend sid e s)) \<longrightarrow>
      shouldContinue s \<and> sid = currentSessionId s \<and> isListening s"
    by (auto simp add: onend_def split: if_splits option.splits start_outcome.splits)
  have restart: "shouldContinue s \<and> sid = currentSessionId s \<and> isListening s \<and>
      recognition s \<noteq> None \<longrightarrow>
      EngineStart \<in> set (snd (onend sid e s)) \<and>
      filter is_callback (snd (onend sid e s)) = [] \<and>
      fst (onend sid e s) = (if start_call e = Started then s else s\<lparr>isListening := False\<rparr>)"
    by (auto simp add: onend_def split: start_outcome.splits)
  have made: "made \<in> set (handles_made h new_VoiceService) \<and>
      shouldContinue (run h new_VoiceService) \<and>
      made = currentSessionId (run h new_VoiceService) \<and>
      isListening (run h new_VoiceService) \<longrightarrow>
      EngineStart \<in> set (snd (onend made e (run h new_VoiceService)))"
  proof
    let ?s = "run h new_VoiceService"
    assume c: "made \<in> set (handles_made h new_VoiceService) \<and> shouldContinue ?s \<and>
      made = currentSessionId ?s \<and> isListening ?s"
    then have "made \<in> set (handles_made h new_VoiceService)"
      and "made = currentSessionId ?s"
      by blast+
    then have "recognition ?s = Some (Handle (Some made))"
      by (rule handles_made_current_held)
    with c show "EngineStart \<in> set (snd (onend made e ?s))"
      by (auto simp add: onend_def split: start_outcome.splits)
  qed
  have otherwise: "\<not> (shouldContinue s \<and> sid = currentSessionId s \<and> isListening s) \<longrightarrow>
      onend sid e s = (s\<lparr>isListening := False\<rparr>, [])"
    by (auto simp add: onend_def)
  have stopped: "onend sid e (fst (stopListening e' s)) = (fst (stopListening e' s), [])"
    by (simp add: onend_def stopListening_state)
  from only_if restart made otherwise stopped show ?thesis
    by blast
qed

theorem end_event_restart_decision_witness:
  "shouldContinue (run started new_VoiceService) \<and>
   2 = currentSessionId (run started new_VoiceService) \<and>
   isListening (run started new_VoiceService) \<and>
   recognition (run started new_VoiceService) \<noteq> None \<and>
   2 \<in> set (handles_made started new_VoiceService) \<and>
   EngineStart \<in> set (snd (onend 2 working (run started new_VoiceService))) \<and>
   fst (onend 2 working (run started new_VoiceService)) = run started new_VoiceService \<and>
   \<not> isListening (fst (onend 2 already_started (run started new_VoiceService))) \<and>
   EngineStart \<notin> set (snd (onend 1 working (run started new_VoiceService))) \<and>
   onend 1 working (run started new_VoiceService) =
     ((run started new_VoiceService)\<lparr>isListening := False\<rparr>, [])"
proof -
  let ?s = "run started new_VoiceService"
  have c: "shouldContinue ?s" "2 = currentSessionId ?s" "isListening ?s" "recognition ?s \<noteq> None"
    by (simp_all add: started_state)
  have m: "2 \<in> set (handles_made started new_VoiceService)"
    by (simp add: started_def eval_defs)
  have n: "\<not> (shouldContinue ?s \<and> 1 = currentSessionId ?s \<and> isListening ?s)"
    by (simp add: started_state)
  have w: "start_call working = Started" "start_call already_started \<noteq> Started"
    by (simp_all add: working_def already_started_def)
  from end_event_restart_decision [of 2 working ?s 2 started working] m c
  have r0: "EngineStart \<in> set (snd (onend 2 working ?s))"
    by blast
  from end_event_restart_decision [of 2 working ?s 2 started working] c w
  have r1: "fst (onend 2 working ?s) = ?s"
    by simp
  from end_event_restart_decision [of 2 already_started ?s 2 started working] c w
  have r2: "\<not> isListening (fst (onend 2 already_started ?s))"
    by simp
  from end_event_restart_decision [of 1 working ?s 2 started working] n
  have r3: "EngineStart \<notin> set (snd (onend 1 working ?s))"
    "onend 1 working ?s = (?s\<lparr>isListening := False\<rparr>, [])"
    by blast+
  from c m r0 r1 r2 r3 show ?thesis by (intro conjI)
qed

section \<open>Failure to start\<close>

text \<open>
  Claim C7, as stated, fails: when the session was superseded before the retry timer
  expires, the timer body makes no call at all, so no ``failed to start'' error reaches
  the error callback.
\<close>

theorem superseded_retry_is_silent_counterexample:
  "startListeningForQuestion (Some ''Q1'') (Some 1) (Some 2) already_started new_VoiceService =
     (False, run [hd superseded_retry] new_VoiceService,
      [EngineNew, EngineStart, ConsoleError, EngineStop, SetTimeout (Retry 2 (Some 2)) 100]) \<and>
   currentSessionId (run superseded_retry new_VoiceService) = 3 \<and>
   timer_fire (Retry 2 (Some 2)) working (run superseded_retry new_VoiceService) =
     (run superseded_retry new_VoiceService, []) \<and>
   OnError 2 ''Failed to start voice input'' \<notin>
     set (snd (timer_fire (Retry 2 (Some 2)) working (run superseded_retry new_VoiceService)))"
  by (simp add: superseded_retry_def eval_defs)


text \<open>
  Claim C7, amended. When \<open>start\<close> throws \<open>InvalidStateError\<close> during
  \<open>startListeningForQuestion\<close> (and the \<open>stop\<close> issued in reply does not throw), the
  call returns false, arms exactly one timer of 100 ms that captures the session
  identifier of this call, and invokes no callback. When the timer expires: if the
  session identifier has changed, nothing happens (no start, no callback); if it is
  unchanged, \<open>start\<close> is called once more, and if that throws, the error callback
  receives \<open>''Failed to start voice input''\<close> and no further timer is armed.
\<close>

theorem start_failure_single_retry:
  assumes "api_present e \<and> \<not> ctor_throws e"
    and "start_call e = StartThrows ''InvalidStateError''"
    and "\<not> stop_throws e"
    and "sid = currentSessionId (fst (snd (startListeningForQuestion q onT onE e s)))"
  shows "\<not> fst (startListeningForQuestion q onT onE e s) \<and>
         filter is_timer (snd (snd (startListeningForQuestion q onT onE e s))) =
           [SetTimeout (Retry sid onE) 100] \<and>
         filter is_callback (snd (snd (startListeningForQuestion q onT onE e s))) = [] \<and>
         (currentSessionId t \<noteq> sid \<longrightarrow> timer_fire (Retry sid onE) e' t = (t, [])) \<and>
         (currentSessionId t = sid \<and> recognition t \<noteq> None \<and> start_call e' = Started \<longrightarrow>
            timer_fire (Retry sid onE) e' t = (t, [EngineStart])) \<and>
         (currentSessionId t = sid \<and> recognition t \<noteq> None \<and> start_call e' \<noteq> Started \<longrightarrow>
            timer_fire (Retry sid onE) e' t =
              (t, EngineStart # call_error onE ''Failed to start voice input''))"
  using assms
  by (auto simp add: startListeningForQuestion_result startListeningForQuestion_timers
      startListeningForQuestion_callbacks split: option.splits start_outcome.splits)


theorem start_failure_single_retry_witness:
  "api_present already_started \<and> \<not> ctor_throws already_started \<and>
   start_call already_started = StartThrows ''InvalidStateError'' \<and>
   \<not> stop_throws already_started \<and>
   2 = currentSessionId (fst (snd (startListeningForQuestion (Some ''Q1'') (Some 1) (Some 2)
         already_started new_VoiceService))) \<and>
   \<not> fst (startListeningForQuestion (Some ''Q1'') (Some 1) (Some 2) already_started
         new_VoiceService) \<and>
   filter is_timer (snd (snd (startListeningForQuestion (Some ''Q1'') (Some 1) (Some 2)
       already_started new_VoiceService))) = [SetTimeout (Retry 2 (Some 2)) 100] \<and>
   timer_fire (Retry 2 (Some 2)) working (run superseded_retry new_VoiceService) =
     (run superseded_retry new_VoiceService, []) \<and>
   timer_fire (Retry 2 (Some 2)) working (run [hd superseded_retry] new_VoiceService) =
     (run [hd superseded_retry] new_VoiceService, [EngineStart]) \<and>
   timer_fire (Retry 2 (Some 2)) already_started (run [hd superseded_retry] new_VoiceService) =
     (run [hd superseded_retry] new_VoiceService,
      [EngineStart, OnError 2 ''Failed to start voice input''])"
proof -
  let ?r = "startListeningForQuestion (Some ''Q1'') (Some 1) (Some 2) already_started
              new_VoiceService"
  let ?gone = "run superseded_retry new_VoiceService"
  let ?live = "run [hd superseded_retry] new_VoiceService"
  have a: "api_present already_started \<and> \<not> ctor_throws already_started"
    and b: "start_call already_started = StartThrows ''InvalidStateError''"
    and c: "\<not> stop_throws already_started"
    by (simp_all add: already_started_def)
  have d: "2 = currentSessionId (fst (snd ?r))"
    by (simp add: startListeningForQuestion_session new_VoiceService_def)
  have gone: "currentSessionId ?gone \<noteq> 2"
    by (simp add: superseded_retry_def eval_defs)
  have live: "currentSessionId ?live = 2 \<and> recognition ?live \<noteq> None \<and>
      start_call already_started \<noteq> Started"
    by (simp add: superseded_retry_def eval_defs)
  have live': "currentSessionId ?live = 2 \<and> recognition ?live \<noteq> None \<and>
      start_call working = Started"
    by (simp add: superseded_retry_def eval_defs)
  from start_failure_single_retry [OF a b c d, of ?gone working]
  have r1: "\<not> fst ?r" "filter is_timer (snd (snd ?r)) = [SetTimeout (Retry 2 (Some 2)) 100]"
    by blast+
  from start_failure_single_retry [OF a b c d, of ?gone working] gone
  have r2: "timer_fire (Retry 2 (Some 2)) working ?gone = (?gone, [])"
    by blast
  from start_failure_single_retry [OF a b c d, of ?live working] live'
  have r4: "timer_fire (Retry 2 (Some 2)) working ?live = (?live, [EngineStart])"
    by blast
  from start_failure_single_retry [OF a b c d, of ?live already_started] live
  have "timer_fire (Retry 2 (Some 2)) already_started ?live =
      (?live, EngineStart # call_error (Some 2) ''Failed to start voice input'')"
    by blast
  then have r3: "timer_fire (Retry 2 (Some 2)) already_started ?live =
      (?live, [EngineStart, OnError 2 ''Failed to start voice input''])"
    by (simp add: call_error_def)
  from a b c d r1 r2 r4 r3 show ?thesis by (intro conjI) simp_all
qed

section \<open>Error events\<close>

text \<open>
  Claim C8, as stated, fails: an error event of kind \<open>no-speech\<close> or \<open>aborted\<close> for
  the current session leaves the service marked as listening.
\<close>

theorem benign_error_keeps_listening_counterexample:
  "2 = currentSessionId (run started new_VoiceService) \<and>
   isListening (run started new_VoiceService) \<and>
   isListening (fst (onerror 2 ''no-speech'' (run started new_VoiceService))) \<and>
   isListening (fst (onerror 2 ''aborted'' (run started new_VoiceService)))"
  by (simp add: started_state onerror_def)


text \<open>
  Claim C8, amended. An error event for the current session never touches the handle.
  The kinds \<open>no-speech\<close> and \<open>aborted\<close> change nothing (the listening mark stays as it
  was) and invoke no callback. Every other kind marks the service as not listening and
  passes one message to the stored error callback, if there is one:
  \<open>''No microphone found''\<close> for \<open>audio-capture\<close>, \<open>''Microphone access denied''\<close> for
  \<open>not-allowed\<close>, and \<open>''Error: ''\<close> followed by the kind otherwise.
\<close>

theorem error_event_handling:
  assumes "sid = currentSessionId s"
  shows "recognition (fst (onerror sid kind s)) = recognition s \<and>
         (kind = ''no-speech'' \<or> kind = ''aborted'' \<longrightarrow> onerror sid kind s = (s, [])) \<and>
         (kind \<noteq> ''no-speech'' \<and> kind \<noteq> ''aborted'' \<longrightarrow>
            fst (onerror sid kind s) = s\<lparr>isListening := False\<rparr> \<and>
            (onErrorCallback s = None \<longrightarrow> snd (onerror sid kind s) = []) \<and>
            (\<forall>cb. onErrorCallback s = Some cb \<longrightarrow>
               snd (onerror sid kind s) =
                 [OnError cb (if kind = ''audio-capture'' then ''No microphone found''
                              else if kind = ''not-allowed'' then ''Microphone access denied''
                              else ''Error: '' @ kind)]))"
  using assms by (simp add: onerror_def call_error_def error_message_def)

theorem error_event_handling_witness:
  "2 = currentSessionId (run started new_VoiceService) \<and>
   onErrorCallback (run started new_VoiceService) = Some 2 \<and>
   onerror 2 ''no-speech'' (run started new_VoiceService) = (run started new_VoiceService, []) \<and>
   onerror 2 ''audio-capture'' (run started new_VoiceService) =
     ((run started new_VoiceService)\<lparr>isListening := False\<rparr>, [OnError 2 ''No microphone found'']) \<and>
   onerror 2 ''not-allowed'' (run started new_VoiceService) =
     ((run started new_VoiceService)\<lparr>isListening := False\<rparr>, [OnError 2 ''Microphone access denied'']) \<and>
   onerror 2 ''network'' (run started new_VoiceService) =
     ((run started new_VoiceService)\<lparr>isListening := False\<rparr>, [OnError 2 ''Error: network'']) \<and>
   2 = currentSessionId (run started_mute new_VoiceService) \<and>
   onErrorCallback (run started_mute new_VoiceService) = None \<and>
   onerror 2 ''network'' (run started_mute new_VoiceService) =
     ((run started_mute new_VoiceService)\<lparr>isListening := False\<rparr>, [])"
proof -
  let ?s = "run started new_VoiceService"
  have a: "2 = currentSessionId ?s" and b: "onErrorCallback ?s = Some 2"
    by (simp_all add: started_state)
  from error_event_handling [OF a, of "''no-speech''"]
  have r1: "onerror 2 ''no-speech'' ?s = (?s, [])" by simp
  from error_event_handling [OF a, of "''audio-capture''"] b
  have r2: "onerror 2 ''audio-capture'' ?s =
      (?s\<lparr>isListening := False\<rparr>, [OnError 2 ''No microphone found''])"
    by (simp add: prod_eq_iff)
  from error_event_handling [OF a, of "''not-allowed''"] b
  have r3: "onerror 2 ''not-allowed'' ?s =
      (?s\<lparr>isListening := False\<rparr>, [OnError 2 ''Microphone access denied''])"
    by (simp add: prod_eq_iff)
  from error_event_handling [OF a, of "''network''"] b
  have r4: "onerror 2 ''network'' ?s =
      (?s\<lparr>isListening := False\<rparr>, [OnError 2 ''Error: network''])"
    by (simp add: prod_eq_iff)
  have a': "2 = currentSessionId (run started_mute new_VoiceService)"
    and b': "onErrorCallback (run started_mute new_VoiceService) = None"
    by (simp_all add: started_mute_def eval_defs)
  from error_event_handling [OF a', of "''network''"] b'
  have r5: "onerror 2 ''network'' (run started_mute new_VoiceService) =
      ((run started_mute new_VoiceService)\<lparr>isListening := False\<rparr>, [])"
    by (simp add: prod_eq_iff)
  from a b r1 r2 r3 r4 a' b' r5 show ?thesis by (intro conjI)
qed


section \<open>Cancellation\<close>

text \<open>
  Claim C9, as stated, fails: a second \<open>hardReset\<close> (or \<open>submitAndStop\<close>) right after
  the first leaves a state that differs from the state after the first, in the session
  identifier.
\<close>

theorem reset_twice_differs_counterexample:
  "fst (hardReset (fst (hardReset new_VoiceService))) \<noteq> fst (hardReset new_VoiceService) \<and>
   currentSessionId (fst (hardReset new_VoiceService)) = 1 \<and>
   currentSessionId (fst (hardReset (fst (hardReset new_VoiceService)))) = 2 \<and>
   fst (submitAndStop working (fst (submitAndStop working new_VoiceService))) \<noteq>
     fst (submitAndStop working new_VoiceService)"
  by (simp add: hardReset_state submitAndStop_state new_VoiceService_def)


text \<open>
  Claim C9, amended. From any state, \<open>hardReset\<close> called twice in a row leaves the state
  that one call leaves, except that the session identifier has grown by two instead of
  one; the second call makes no outside call, and the first invokes no callback. The same
  holds for \<open>submitAndStop\<close>, whatever the engine does when asked to stop. Both are
  total: every engine exception is caught inside them.
\<close>

theorem cancellation_idempotent_up_to_session:
  "fst (hardReset (fst (hardReset s))) =
     (fst (hardReset s))\<lparr>currentSessionId := currentSessionId s + 2\<rparr> \<and>
   snd (hardReset (fst (hardReset s))) = [] \<and>
   filter is_callback (snd (hardReset s)) = [] \<and>
   fst (submitAndStop e2 (fst (submitAndStop e1 s))) =
     (fst (submitAndStop e1 s))\<lparr>currentSessionId := currentSessionId s + 2\<rparr> \<and>
   snd (submitAndStop e2 (fst (submitAndStop e1 s))) = [] \<and>
   filter is_callback (snd (submitAndStop e1 s)) = []"
  by (simp add: hardReset_state hardReset_effects submitAndStop_state submitAndStop_effects)


section \<open>Starting without an engine\<close>

text \<open>
  Claim C10, as stated, fails: a start that fails for want of an engine, for a question
  other than the tracked one, empties the final buffer on the way (through the hard reset
  it begins with).
\<close>

theorem failed_start_clears_on_question_change_counterexample:
  "finalTranscript (run spoken new_VoiceService) = ''hello '' \<and>
   startListeningForQuestion (Some ''Q2'') (Some 3) (Some 4) no_engine (run spoken new_VoiceService) =
     (False,
      \<lparr>recognition = None, currentSessionId = 4, activeSessionId = Some 4, isListening = False,
        finalTranscript = [], interimTranscript = [], onTranscriptCallback = None,
        onErrorCallback = None, shouldContinue = False, currentQuestionId = Some ''Q2''\<rparr>,
      [EngineAbort, ConsoleWarn, OnError 4 ''Speech recognition not supported'']) \<and>
   finalTranscript (fst (snd (startListeningForQuestion (Some ''Q2'') (Some 3) (Some 4) no_engine
       (run spoken new_VoiceService)))) \<noteq> finalTranscript (run spoken new_VoiceService)"
  by (simp add: spoken_def eval_defs)


text \<open>
  Claim C10, amended. When no engine can be created, \<open>startListeningForQuestion\<close>
  returns false and invokes the error callback it was given (if any) once, with
  \<open>''Speech recognition not supported''\<close>, as its only callback; by then the session
  identifier has grown and the handle is gone. The call never stores its callbacks nor
  sets the continuation flag. For the tracked question it touches nothing else: both
  buffer parts, the flag and the stored callbacks stay as they were. For another question
  the hard reset it begins with has emptied both buffer parts, cleared the flag and
  dropped the stored callbacks.
\<close>

theorem start_without_engine:
  assumes "\<not> (api_present e \<and> \<not> ctor_throws e)"
  shows "\<not> fst (startListeningForQuestion q onT onE e s) \<and>
         filter is_callback (snd (snd (startListeningForQuestion q onT onE e s))) =
           call_error onE ''Speech recognition not supported'' \<and>
         currentSessionId s < currentSessionId (fst (snd (startListeningForQuestion q onT onE e s))) \<and>
         recognition (fst (snd (startListeningForQuestion q onT onE e s))) = None \<and>
         (currentQuestionId s = q \<longrightarrow>
            fst (snd (startListeningForQuestion q onT onE e s)) =
              s\<lparr>recognition := None, currentSessionId := currentSessionId s + 1,
                activeSessionId := Some (currentSessionId s + 1), isListening := False\<rparr>) \<and>
         (currentQuestionId s \<noteq> q \<longrightarrow>
            fst (snd (startListeningForQuestion q onT onE e s)) =
              s\<lparr>recognition := None, currentSessionId := currentSessionId s + 2,
                activeSessionId := Some (currentSessionId s + 2), isListening := False,
                finalTranscript := [], interimTranscript := [],
                onTranscriptCallback := None, onErrorCallback := None,
                shouldContinue := False, currentQuestionId := q\<rparr>)"
  using assms
  by (auto simp add: startListeningForQuestion_result startListeningForQuestion_callbacks
      startListeningForQuestion_state question_checked_def hardReset_state Let_def)


theorem start_without_engine_witness:
  "\<not> (api_present no_engine \<and> \<not> ctor_throws no_engine) \<and>
   currentQuestionId (run spoken new_VoiceService) = Some ''Q1'' \<and>
   \<not> fst (startListeningForQuestion (Some ''Q1'') (Some 3) (Some 4) no_engine
         (run spoken new_VoiceService)) \<and>
   filter is_callback (snd (snd (startListeningForQuestion (Some ''Q1'') (Some 3) (Some 4)
       no_engine (run spoken new_VoiceService)))) =
     [OnError 4 ''Speech recognition not supported''] \<and>
   fst (snd (startListeningForQuestion (Some ''Q1'') (Some 3) (Some 4) no_engine
       (run spoken new_VoiceService))) =
     \<lparr>recognition = None, currentSessionId = 3, activeSessionId = Some 3, isListening = False,
       finalTranscript = ''hello '', interimTranscript = [], onTranscriptCallback = Some 1,
       onErrorCallback = Some 2, shouldContinue = True, currentQuestionId = Some ''Q1''\<rparr> \<and>
   currentQuestionId (run spoken new_VoiceService) \<noteq> Some ''Q2'' \<and>
   fst (snd (startListeningForQuestion (Some ''Q2'') (Some 3) (Some 4) no_engine
       (run spoken new_VoiceService))) =
     \<lparr>recognition = None, currentSessionId = 4, activeSessionId = Some 4, isListening = False,
       finalTranscript = [], interimTranscript = [], onTranscriptCallback = None,
       onErrorCallback = None, shouldContinue = False, currentQuestionId = Some ''Q2''\<rparr>"
proof -
  let ?s = "run spoken new_VoiceService"
  let ?r = "startListeningForQuestion (Some ''Q1'') (Some 3) (Some 4) no_engine ?s"
  let ?r' = "startListeningForQuestion (Some ''Q2'') (Some 3) (Some 4) no_engine ?s"
  have a: "\<not> (api_present no_engine \<and> \<not> ctor_throws no_engine)"
    by (simp add: no_engine_def)
  have b: "currentQuestionId ?s = Some ''Q1''"
    by (simp add: spoken_state)
  from start_without_engine [OF a, of "Some ''Q1''" "Some 3" "Some 4" ?s]
  have r1: "\<not> fst ?r"
    and r2: "filter is_callback (snd (snd ?r)) =
      call_error (Some 4) ''Speech recognition not supported''"
    by blast+
  from start_without_engine [OF a, of "Some ''Q1''" "Some 3" "Some 4" ?s] b
  have r3: "fst (snd ?r) =
      ?s\<lparr>recognition := None, currentSessionId := currentSessionId ?s + 1,
        activeSessionId := Some (currentSessionId ?s + 1), isListening := False\<rparr>"
    by blast
  from r2 have r2': "filter is_callback (snd (snd ?r)) =
      [OnError 4 ''Speech recognition not supported'']"
    by (simp add: call_error_def)
  from r3 have r3': "fst (snd ?r) =
     \<lparr>recognition = None, currentSessionId = 3, activeSessionId = Some 3, isListening = False,
       finalTranscript = ''hello '', interimTranscript = [], onTranscriptCallback = Some 1,
       onErrorCallback = Some 2, shouldContinue = True, currentQuestionId = Some ''Q1''\<rparr>"
    by (simp add: spoken_state)
  have b': "currentQuestionId ?s \<noteq> Some ''Q2''"
    by (simp add: spoken_state)
  from start_without_engine [OF a, of "Some ''Q2''" "Some 3" "Some 4" ?s] b'
  have "fst (snd ?r') =
      ?s\<lparr>recognition := None, currentSessionId := currentSessionId ?s + 2,
        activeSessionId := Some (currentSessionId ?s + 2), isListening := False,
        finalTranscript := [], interimTranscript := [],
        onTranscriptCallback := None, onErrorCallback := None,
        shouldContinue := False, currentQuestionId := Some ''Q2''\<rparr>"
    by blast
  then have r4: "fst (snd ?r') =
     \<lparr>recognition = None, currentSessionId = 4, activeSessionId = Some 4, isListening = False,
       finalTranscript = [], interimTranscript = [], onTranscriptCallback = None,
       onErrorCallback = None, shouldContinue = False, currentQuestionId = Some ''Q2''\<rparr>"
    by (simp add: spoken_state)
  from a b r1 r2' r3' b' r4 show ?thesis by (intro conjI)
qed

end
